theory Spec2Isabelle
  imports Complex_Main
begin

section \<open>JavaScript values\<close>

text \<open>
  A JavaScript number is a finite value, one of the two infinities, or NaN. Finite values
  are modelled as exact reals: rounding, overflow and the sign of zero are abstracted, the
  special values are kept because the program tests for them (\<open>Number.isNaN\<close>) and
  because comparisons with NaN are false.
\<close>

datatype jsnum = Fin real | PInf | NInf | NaN

fun nneg :: "jsnum \<Rightarrow> jsnum" where
  "nneg (Fin a) = Fin (- a)"
| "nneg PInf = NInf"
| "nneg NInf = PInf"
| "nneg NaN = NaN"

fun nadd :: "jsnum \<Rightarrow> jsnum \<Rightarrow> jsnum" where
  "nadd (Fin a) (Fin b) = Fin (a + b)"
| "nadd (Fin a) PInf = PInf"
| "nadd (Fin a) NInf = NInf"
| "nadd PInf (Fin b) = PInf"
| "nadd PInf PInf = PInf"
| "nadd PInf NInf = NaN"
| "nadd NInf (Fin b) = NInf"
| "nadd NInf PInf = NaN"
| "nadd NInf NInf = NInf"
| "nadd NaN y = NaN"
| "nadd x NaN = NaN"

definition nsub :: "jsnum \<Rightarrow> jsnum \<Rightarrow> jsnum" where
  "nsub x y = nadd x (nneg y)"

fun nmul :: "jsnum \<Rightarrow> jsnum \<Rightarrow> jsnum" where
  "nmul (Fin a) (Fin b) = Fin (a * b)"
| "nmul (Fin a) PInf = (if a = 0 then NaN else if 0 < a then PInf else NInf)"
| "nmul (Fin a) NInf = (if a = 0 then NaN else if 0 < a then NInf else PInf)"
| "nmul PInf (Fin b) = (if b = 0 then NaN else if 0 < b then PInf else NInf)"
| "nmul NInf (Fin b) = (if b = 0 then NaN else if 0 < b then NInf else PInf)"
| "nmul PInf PInf = PInf"
| "nmul PInf NInf = NInf"
| "nmul NInf PInf = NInf"
| "nmul NInf NInf = PInf"
| "nmul NaN y = NaN"
| "nmul x NaN = NaN"

fun ndiv :: "jsnum \<Rightarrow> jsnum \<Rightarrow> jsnum" where
  "ndiv (Fin a) (Fin b) =
     (if b = 0 then (if a = 0 then NaN else if 0 < a then PInf else NInf) else Fin (a / b))"
| "ndiv (Fin a) PInf = Fin 0"
| "ndiv (Fin a) NInf = Fin 0"
| "ndiv PInf (Fin b) = (if 0 \<le> b then PInf else NInf)"
| "ndiv NInf (Fin b) = (if 0 \<le> b then NInf else PInf)"
| "ndiv PInf PInf = NaN"
| "ndiv PInf NInf = NaN"
| "ndiv NInf PInf = NaN"
| "ndiv NInf NInf = NaN"
| "ndiv NaN y = NaN"
| "ndiv x NaN = NaN"

text \<open>\<open>x > y\<close>, \<open>x < y\<close> and \<open>x >= y\<close> on numbers: false as soon as one side is NaN.\<close>

fun ngt :: "jsnum \<Rightarrow> jsnum \<Rightarrow> bool" where
  "ngt (Fin a) (Fin b) = (b < a)"
| "ngt (Fin a) NInf = True"
| "ngt PInf (Fin b) = True"
| "ngt PInf NInf = True"
| "ngt x y = False"

definition nlt :: "jsnum \<Rightarrow> jsnum \<Rightarrow> bool" where
  "nlt x y = ngt y x"

definition nge :: "jsnum \<Rightarrow> jsnum \<Rightarrow> bool" where
  "nge x y = (x \<noteq> NaN \<and> y \<noteq> NaN \<and> \<not> ngt y x)"

text \<open>
  A cell of a row, an observed value or a split value: a number, a string, \<open>null\<close>
  (the missing-value sentinel of an observation) or \<open>undefined\<close> (what reading past the
  end of an array gives).
\<close>

datatype jsval = Num jsnum | Str string | Null | Undefined

type_synonym row = "jsval list"

text \<open>
  The conversions between strings and numbers are built into the language, not part of
  the program; every function that coerces takes them as a parameter, and nothing is
  assumed about them.
\<close>

record builtins =
  string_to_number :: "string \<Rightarrow> jsnum"
  number_to_string :: "jsnum \<Rightarrow> string"
  to_precision :: "jsnum \<Rightarrow> nat \<Rightarrow> string"

definition to_number :: "builtins \<Rightarrow> jsval \<Rightarrow> jsnum" where
  "to_number B v =
     (case v of Num n \<Rightarrow> n | Str s \<Rightarrow> string_to_number B s | Null \<Rightarrow> Fin 0 | Undefined \<Rightarrow> NaN)"

definition to_string :: "builtins \<Rightarrow> jsval \<Rightarrow> string" where
  "to_string B v =
     (case v of Num n \<Rightarrow> number_to_string B n | Str s \<Rightarrow> s
      | Null \<Rightarrow> ''null'' | Undefined \<Rightarrow> ''undefined'')"

text \<open>\<open>typeof n === 'number' && !Number.isNaN(n)\<close>\<close>

definition isNumber :: "jsval \<Rightarrow> bool" where
  "isNumber n = (case n of Num x \<Rightarrow> x \<noteq> NaN | _ \<Rightarrow> False)"

text \<open>\<open>a === b\<close>: no coercion, and NaN differs from itself.\<close>

definition strict_eq :: "jsval \<Rightarrow> jsval \<Rightarrow> bool" where
  "strict_eq a b = (a = b \<and> a \<noteq> Num NaN)"

text \<open>
  \<open>a >= b\<close> where one side is a number (the program only compares after
  \<open>isNumber\<close> held of one operand): both sides are converted to numbers.
\<close>

definition js_ge :: "builtins \<Rightarrow> jsval \<Rightarrow> jsval \<Rightarrow> bool" where
  "js_ge B a b = nge (to_number B a) (to_number B b)"

text \<open>Truthiness of a primitive value.\<close>

definition truthy :: "jsval \<Rightarrow> bool" where
  "truthy v =
     (case v of Num n \<Rightarrow> n \<noteq> NaN \<and> n \<noteq> Fin 0 | Str s \<Rightarrow> s \<noteq> [] | Null \<Rightarrow> False
      | Undefined \<Rightarrow> False)"

text \<open>\<open>a + b\<close>: concatenation as soon as one side is a string, numeric addition otherwise.\<close>

definition js_plus :: "builtins \<Rightarrow> jsval \<Rightarrow> jsval \<Rightarrow> jsval" where
  "js_plus B a b =
     (case (a, b) of
        (Str s, _) \<Rightarrow> Str (s @ to_string B b)
      | (_, Str t) \<Rightarrow> Str (to_string B a @ t)
      | _ \<Rightarrow> Num (nadd (to_number B a) (to_number B b)))"

text \<open>\<open>row[i]\<close>: \<open>undefined\<close> out of range.\<close>

definition at_index :: "row \<Rightarrow> int \<Rightarrow> jsval" where
  "at_index r i = (if 0 \<le> i \<and> nat i < length r then r ! nat i else Undefined)"

text \<open>\<open>row[row.length - 1]\<close>, the target cell.\<close>

definition target :: "row \<Rightarrow> jsval" where
  "target r = at_index r (int (length r) - 1)"

section \<open>The splitter\<close>

definition splittingFunction :: "builtins \<Rightarrow> nat \<Rightarrow> jsval \<Rightarrow> row \<Rightarrow> bool" where
  "splittingFunction B column v r =
     (if isNumber v then js_ge B (at_index r (int column)) v
      else strict_eq (at_index r (int column)) v)"

definition divideSet :: "builtins \<Rightarrow> row list \<Rightarrow> nat \<Rightarrow> jsval \<Rightarrow> row list \<times> row list" where
  "divideSet B rows column v =
     (filter (splittingFunction B column v) rows,
      filter (\<lambda>r. \<not> splittingFunction B column v r) rows)"

section \<open>Label distributions and impurity metrics\<close>

text \<open>
  The \<open>results\<close> object maps a label (the property key, the target converted to a string)
  to a count. It is kept as an association list with distinct keys in insertion order;
  JavaScript enumerates keys that are array indices first, which no property below
  depends on. The labels \<open>__proto__\<close> and \<open>hasOwnProperty\<close>, which an object literal does
  not treat as ordinary keys under \<open>results[r]\<close> and \<open>results.hasOwnProperty(r)\<close>, are
  outside the model.
\<close>

type_synonym counts = "(string \<times> nat) list"

fun bump :: "string \<Rightarrow> counts \<Rightarrow> counts" where
  "bump k [] = [(k, 1)]"
| "bump k ((k', c) # kvs) = (if k = k' then (k', c + 1) # kvs else (k', c) # bump k kvs)"

definition uniqueCounts :: "builtins \<Rightarrow> row list \<Rightarrow> counts" where
  "uniqueCounts B rows = fold (\<lambda>r res. bump (to_string B (target r)) res) rows []"

definition gini :: "builtins \<Rightarrow> row list \<Rightarrow> jsnum" where
  "gini B rows =
     (let total = Fin (real (length rows)); counts = uniqueCounts B rows
      in fold (\<lambda>(k1, c1) imp.
                 fold (\<lambda>(k2, c2) imp.
                         if k1 = k2 then imp
                         else nadd imp (nmul (ndiv (Fin (real c1)) total)
                                             (ndiv (Fin (real c2)) total)))
                      counts imp)
              counts (Fin 0))"

text \<open>
  An evaluation function scores a row set or throws; \<open>'e\<close> is what it may throw.
\<close>

type_synonym 'e metric = "row list \<Rightarrow> 'e + jsnum"

definition GINI :: "builtins \<Rightarrow> 'e metric" where
  "GINI B rows = Inr (gini B rows)"

datatype metric_error = InvalidTargetType

text \<open>\<open>array.reduce((acc, value) => acc + value, 0)\<close>\<close>

definition sum_js :: "builtins \<Rightarrow> jsval list \<Rightarrow> jsval" where
  "sum_js B array = fold (\<lambda>v acc. js_plus B acc v) array (Num (Fin 0))"

text \<open>\<open>array.find(pred)\<close>: the first element that satisfies, \<open>undefined\<close> when none does.\<close>

definition find_js :: "(jsval \<Rightarrow> bool) \<Rightarrow> jsval list \<Rightarrow> jsval" where
  "find_js P array = (case find P array of Some v \<Rightarrow> v | None \<Rightarrow> Undefined)"

definition variance :: "builtins \<Rightarrow> metric_error metric" where
  "variance B rows =
     (if rows = [] then Inr (Fin 0)
      else
        let data = map target rows in
        if truthy (find_js (\<lambda>p. \<not> isNumber p) data) then Inl InvalidTargetType
        else
          let n = Fin (real (length data));
              mean = ndiv (to_number B (sum_js B data)) n;
              sq = map (\<lambda>d. let x = nsub (to_number B d) mean in Num (nmul x x)) data
          in Inr (ndiv (to_number B (sum_js B sq)) n))"

section \<open>The tree\<close>

text \<open>
  The \<open>summary\<close> of a node is the empty object of the constructor's default or the pair of
  the node's score, rendered by \<open>toPrecision(3)\<close>, and the number of rows.
\<close>

datatype summary = EmptySummary | Summary (impurity: string) (samples: nat)

text \<open>
  A \<open>DecisionTree\<close> object. A branch that is \<open>undefined\<close> (never given to the constructor)
  or \<open>null\<close> (set by the pruner) is \<open>None\<close>; \<open>results\<close> is \<open>None\<close> when \<open>null\<close>. The
  field \<open>value\<close> is \<open>split_value\<close> here. A field that the caller of the constructor
  leaves out takes its default: \<open>col\<close> is \<open>-1\<close> and \<open>value\<close> is \<open>null\<close> in a leaf.
\<close>

datatype tree =
  DecisionTree (col: int) (split_value: jsval) (trueBranch: "tree option")
    (falseBranch: "tree option") (results: "counts option") (summary: summary)

text \<open>\<open>new DecisionTree\<close> with every default.\<close>

definition default_tree :: tree where
  "default_tree = DecisionTree (- 1) Null None None None EmptySummary"

datatype 'e error = InvalidMetric | TypeError | Thrown 'e

section \<open>The tree builder\<close>

text \<open>\<open>Array.from(new Set(columnValues))\<close>: the distinct values in order of first occurrence.\<close>

definition distinct_values :: "jsval list \<Rightarrow> jsval list" where
  "distinct_values vs = fold (\<lambda>v seen. if v \<in> set seen then seen else seen @ [v]) vs []"

text \<open>
  \<open>.sort((a, b) => a - b)\<close>. The comparator's result counts as 0 when it is NaN, and
  \<open>undefined\<close> elements go last without being compared. The sort is stable; it is modelled
  as an insertion sort, which is what every stable sort computes when the comparator is
  a consistent order on the elements (all numbers, or all strings that are not numerals).
  On other columns the language leaves the order to the implementation.
\<close>

definition compare_sub :: "builtins \<Rightarrow> jsval \<Rightarrow> jsval \<Rightarrow> jsnum" where
  "compare_sub B a b = nsub (to_number B a) (to_number B b)"

fun insert_sorted :: "builtins \<Rightarrow> jsval \<Rightarrow> jsval list \<Rightarrow> jsval list" where
  "insert_sorted B x [] = [x]"
| "insert_sorted B x (y # ys) =
     (if ngt (compare_sub B y x) (Fin 0) then x # y # ys else y # insert_sorted B x ys)"

definition js_sort :: "builtins \<Rightarrow> jsval list \<Rightarrow> jsval list" where
  "js_sort B vs =
     fold (insert_sorted B) (filter (\<lambda>v. v \<noteq> Undefined) vs) []
       @ filter (\<lambda>v. v = Undefined) vs"

text \<open>\<open>rows.map(row => row[col])\<close>\<close>

definition columnValues :: "row list \<Rightarrow> nat \<Rightarrow> jsval list" where
  "columnValues rows c = map (\<lambda>r. at_index r (int c)) rows"

definition lsUnique :: "builtins \<Rightarrow> row list \<Rightarrow> nat \<Rightarrow> jsval list" where
  "lsUnique B rows c = js_sort B (distinct_values (columnValues rows c))"

text \<open>\<open>rows[0].length - 1\<close>; the column loop does not run when this is not positive.\<close>

definition columnCount :: "row list \<Rightarrow> nat" where
  "columnCount rows = (case rows of [] \<Rightarrow> 0 | r # _ \<Rightarrow> length r - 1)"

text \<open>The (column, value) pairs in the order the two nested loops visit them.\<close>

definition candidates :: "builtins \<Rightarrow> row list \<Rightarrow> (nat \<times> jsval) list" where
  "candidates B rows =
     concat (map (\<lambda>c. map (\<lambda>v. (c, v)) (lsUnique B rows c)) [0..<columnCount rows])"

text \<open>The gain of a candidate: the two calls of the evaluation function, in the code's order.\<close>

definition gain_of ::
  "builtins \<Rightarrow> 'e metric \<Rightarrow> row list \<Rightarrow> jsnum \<Rightarrow> nat \<times> jsval \<Rightarrow> 'e + jsnum" where
  "gain_of B evaluationFunction rows currentScore cv =
     (let (set1, set2) = divideSet B rows (fst cv) (snd cv);
          p = ndiv (Fin (real (length set1))) (Fin (real (length rows)))
      in case evaluationFunction set1 of Inl e \<Rightarrow> Inl e
         | Inr m1 \<Rightarrow>
             (case evaluationFunction set2 of Inl e \<Rightarrow> Inl e
              | Inr m2 \<Rightarrow>
                  Inr (nsub (nsub currentScore (nmul p m1)) (nmul (nsub (Fin 1) p) m2))))"

text \<open>The loop state: \<open>bestGain\<close>, and \<open>bestAttribute\<close> with \<open>bestSets\<close> (both null at first).\<close>

type_synonym best = "jsnum \<times> ((nat \<times> jsval) \<times> (row list \<times> row list)) option"

definition try_candidate ::
  "builtins \<Rightarrow> 'e metric \<Rightarrow> row list \<Rightarrow> jsnum \<Rightarrow> nat \<times> jsval \<Rightarrow> best \<Rightarrow> 'e + best" where
  "try_candidate B evaluationFunction rows currentScore cv st =
     (case gain_of B evaluationFunction rows currentScore cv of
        Inl e \<Rightarrow> Inl e
      | Inr gain \<Rightarrow>
          (let (set1, set2) = divideSet B rows (fst cv) (snd cv)
           in if ngt gain (fst st) \<and> set1 \<noteq> [] \<and> set2 \<noteq> []
              then Inr (gain, Some (cv, (set1, set2)))
              else Inr st))"

fun search ::
  "builtins \<Rightarrow> 'e metric \<Rightarrow> row list \<Rightarrow> jsnum \<Rightarrow> (nat \<times> jsval) list \<Rightarrow> best \<Rightarrow> 'e + best" where
  "search B evaluationFunction rows currentScore [] st = Inr st"
| "search B evaluationFunction rows currentScore (cv # cvs) st =
     (case try_candidate B evaluationFunction rows currentScore cv st of
        Inl e \<Rightarrow> Inl e
      | Inr st' \<Rightarrow> search B evaluationFunction rows currentScore cvs st')"

definition best_split :: "builtins \<Rightarrow> 'e metric \<Rightarrow> row list \<Rightarrow> jsnum \<Rightarrow> 'e + best" where
  "best_split B evaluationFunction rows currentScore =
     search B evaluationFunction rows currentScore (candidates B rows) (Fin 0, None)"

lemma length_divideSet:
  "divideSet B rows c v = (s1, s2) \<Longrightarrow> length s1 + length s2 = length rows"
  by (auto simp: divideSet_def sum_length_filter_compl)

lemma try_candidate_sets:
  assumes "try_candidate B ef rows cs cv st = Inr st'"
    and "\<forall>a s1 s2. snd st = Some (a, (s1, s2)) \<longrightarrow>
           divideSet B rows (fst a) (snd a) = (s1, s2) \<and> s1 \<noteq> [] \<and> s2 \<noteq> []"
  shows "\<forall>a s1 s2. snd st' = Some (a, (s1, s2)) \<longrightarrow>
           divideSet B rows (fst a) (snd a) = (s1, s2) \<and> s1 \<noteq> [] \<and> s2 \<noteq> []"
  using assms
  by (auto simp: try_candidate_def split: sum.splits prod.splits if_splits)

lemma search_sets:
  assumes "search B ef rows cs cvs st = Inr st'"
    and "\<forall>a s1 s2. snd st = Some (a, (s1, s2)) \<longrightarrow>
           divideSet B rows (fst a) (snd a) = (s1, s2) \<and> s1 \<noteq> [] \<and> s2 \<noteq> []"
  shows "\<forall>a s1 s2. snd st' = Some (a, (s1, s2)) \<longrightarrow>
           divideSet B rows (fst a) (snd a) = (s1, s2) \<and> s1 \<noteq> [] \<and> s2 \<noteq> []"
  using assms
proof (induction cvs arbitrary: st)
  case Nil
  then show ?case by simp
next
  case (Cons cv cvs)
  from Cons.prems(1) obtain st1 where
    t: "try_candidate B ef rows cs cv st = Inr st1" and
    s: "search B ef rows cs cvs st1 = Inr st'"
    by (auto split: sum.splits)
  from try_candidate_sets [OF t Cons.prems(2)] Cons.IH [OF s] show ?case by blast
qed

lemma best_split_sets:
  assumes "best_split B ef rows cs = Inr (g, Some (a, (s1, s2)))"
  shows "divideSet B rows (fst a) (snd a) = (s1, s2) \<and> s1 \<noteq> [] \<and> s2 \<noteq> []"
  using search_sets [OF assms [unfolded best_split_def]] by simp

lemma best_split_shorter:
  assumes "best_split B ef rows cs = Inr (g, Some (a, (s1, s2)))"
  shows "length s1 < length rows" and "length s2 < length rows"
proof -
  from best_split_sets [OF assms] have d: "divideSet B rows (fst a) (snd a) = (s1, s2)"
    and n: "s1 \<noteq> []" "s2 \<noteq> []" by auto
  from length_divideSet [OF d] n show "length s1 < length rows" "length s2 < length rows"
    by (cases s1; cases s2; simp)+
qed

text \<open>
  \<open>growDecisionTreeFrom\<close>. The branch on \<open>bestAttribute\<close> being null while \<open>bestGain > 0\<close>
  is the \<open>TypeError\<close> that \<open>bestAttribute[0]\<close> would throw.
\<close>

function growDecisionTreeFrom :: "builtins \<Rightarrow> 'e metric \<Rightarrow> row list \<Rightarrow> 'e error + tree" where
  "growDecisionTreeFrom B evaluationFunction rows =
     (if rows = [] then Inr default_tree
      else
        (case evaluationFunction rows of
           Inl e \<Rightarrow> Inl (Thrown e)
         | Inr currentScore \<Rightarrow>
             (if currentScore = NaN then Inl InvalidMetric
              else
                (case best_split B evaluationFunction rows currentScore of
                   Inl e \<Rightarrow> Inl (Thrown e)
                 | Inr (bestGain, best) \<Rightarrow>
                     (let dcY = Summary (to_precision B currentScore 3) (length rows) in
                      if ngt bestGain (Fin 0) then
                        (case best of
                           None \<Rightarrow> Inl TypeError
                         | Some (bestAttribute, (set1, set2)) \<Rightarrow>
                             (case growDecisionTreeFrom B evaluationFunction set1 of
                                Inl e \<Rightarrow> Inl e
                              | Inr t \<Rightarrow>
                                  (case growDecisionTreeFrom B evaluationFunction set2 of
                                     Inl e \<Rightarrow> Inl e
                                   | Inr f \<Rightarrow>
                                       Inr (DecisionTree (int (fst bestAttribute))
                                              (snd bestAttribute) (Some t) (Some f) None dcY))))
                      else
                        Inr (DecisionTree (- 1) Null None None
                               (Some (uniqueCounts B rows)) dcY))))))"
  by pat_completeness auto
termination
  by (relation "measure (\<lambda>(B, ef, rows). length rows)")
     (auto dest: best_split_shorter)

section \<open>The pruner\<close>

text \<open>
  \<open>Object.entries(results)\<close> re-expanded: \<open>count\<close> one-cell rows \<open>[label]\<close> per entry, the
  label being the property key, a string.
\<close>

definition expand :: "counts \<Rightarrow> row list" where
  "expand cs = concat (map (\<lambda>(v, c). replicate c [Str v]) cs)"

definition prune_delta :: "'e metric \<Rightarrow> row list \<Rightarrow> row list \<Rightarrow> 'e + jsnum" where
  "prune_delta evaluationFunction tb fb =
     (let p = ndiv (Fin (real (length tb))) (Fin (real (length tb + length fb)))
      in case evaluationFunction (tb @ fb) of Inl e \<Rightarrow> Inl e
         | Inr m \<Rightarrow>
             (case evaluationFunction tb of Inl e \<Rightarrow> Inl e
              | Inr m1 \<Rightarrow>
                  (case evaluationFunction fb of Inl e \<Rightarrow> Inl e
                   | Inr m2 \<Rightarrow> Inr (nsub (nsub m (nmul p m1)) (nmul (nsub (Fin 1) p) m2)))))"

text \<open>
  \<open>prune\<close> mutates the tree in place; a tree owns its children and nothing else refers to
  them, so the model returns the tree after the call, with the gains that \<open>notify\<close> logs,
  in order. Reading \<open>.results\<close> of a branch that is \<open>undefined\<close> or \<open>null\<close> throws a
  \<open>TypeError\<close>.
\<close>

fun prune ::
  "builtins \<Rightarrow> 'e metric \<Rightarrow> jsnum \<Rightarrow> bool \<Rightarrow> tree \<Rightarrow> 'e error + (tree \<times> jsnum list)" where
  "prune B evaluationFunction minGain notify (DecisionTree c v tB fB res summ) =
     (case tB of
        None \<Rightarrow> Inl TypeError
      | Some t \<Rightarrow>
          (case (if results t = None then prune B evaluationFunction minGain notify t
                 else Inr (t, [])) of
             Inl e \<Rightarrow> Inl e
           | Inr (t', log1) \<Rightarrow>
               (case fB of
                  None \<Rightarrow> Inl TypeError
                | Some f \<Rightarrow>
                    (case (if results f = None then prune B evaluationFunction minGain notify f
                           else Inr (f, [])) of
                       Inl e \<Rightarrow> Inl e
                     | Inr (f', log2) \<Rightarrow>
                         (case (results t', results f') of
                            (Some tr, Some fr) \<Rightarrow>
                              (let tb = expand tr; fb = expand fr
                               in case prune_delta evaluationFunction tb fb of
                                    Inl e \<Rightarrow> Inl (Thrown e)
                                  | Inr delta \<Rightarrow>
                                      if nlt delta minGain
                                      then Inr (DecisionTree c v None None
                                                  (Some (uniqueCounts B (tb @ fb))) summ,
                                                log1 @ log2 @ (if notify then [delta] else []))
                                      else Inr (DecisionTree c v (Some t') (Some f') res summ,
                                                log1 @ log2))
                          | _ \<Rightarrow>
                              Inr (DecisionTree c v (Some t') (Some f') res summ,
                                   log1 @ log2))))))"

section \<open>The classifier\<close>

text \<open>
  What \<open>classify\<close> returns: a label distribution whose weights are numbers (the counts of
  a leaf, or the blended weights of missing-data routing). The classifier calls no
  evaluation function, so it throws nothing but the \<open>TypeError\<close> of reading \<open>.results\<close>
  of a missing branch.
\<close>

type_synonym dist = "(string \<times> jsnum) list"

definition weights :: "counts \<Rightarrow> dist" where
  "weights cs = map (\<lambda>(k, c). (k, Fin (real c))) cs"

text \<open>The routing test of a node, the same in both strategies.\<close>

definition goes_true :: "builtins \<Rightarrow> jsval \<Rightarrow> jsval \<Rightarrow> bool" where
  "goes_true B v tv = (if isNumber v then js_ge B v tv else strict_eq v tv)"

fun classifyWithoutMissingData :: "builtins \<Rightarrow> row \<Rightarrow> tree \<Rightarrow> unit error + dist" where
  "classifyWithoutMissingData B observations (DecisionTree c tv tB fB res summ) =
     (case res of
        Some r \<Rightarrow> Inr (weights r)
      | None \<Rightarrow>
          (if goes_true B (at_index observations c) tv
           then (case tB of None \<Rightarrow> Inl TypeError
                 | Some t \<Rightarrow> classifyWithoutMissingData B observations t)
           else (case fB of None \<Rightarrow> Inl TypeError
                 | Some f \<Rightarrow> classifyWithoutMissingData B observations f)))"

text \<open>\<open>sum(Object.values(r))\<close> on weights, which are numbers.\<close>

definition sum_weights :: "dist \<Rightarrow> jsnum" where
  "sum_weights r = fold (\<lambda>(k, w) acc. nadd acc w) r (Fin 0)"

text \<open>\<open>if (!result.hasOwnProperty(k)) result[k] = 0; result[k] += w\<close>\<close>

fun add_weight :: "string \<Rightarrow> jsnum \<Rightarrow> dist \<Rightarrow> dist" where
  "add_weight k w [] = [(k, nadd (Fin 0) w)]"
| "add_weight k w ((k', x) # kvs) =
     (if k = k' then (k', nadd x w) # kvs else (k', x) # add_weight k w kvs)"

definition blend :: "dist \<Rightarrow> dist \<Rightarrow> dist" where
  "blend tr fr =
     (let tCount = sum_weights tr; fCount = sum_weights fr;
          tw = ndiv tCount (nadd tCount fCount);
          fw = ndiv fCount (nadd tCount fCount);
          result = fold (\<lambda>(k, v) result. add_weight k (nmul v tw) result) tr []
      in fold (\<lambda>(k, v) result. add_weight k (nmul v fw) result) fr result)"

fun classifyWithMissingData :: "builtins \<Rightarrow> row \<Rightarrow> tree \<Rightarrow> unit error + dist" where
  "classifyWithMissingData B observations (DecisionTree c tv tB fB res summ) =
     (case res of
        Some r \<Rightarrow> Inr (weights r)
      | None \<Rightarrow>
          (if at_index observations c = Null then
             (case tB of
                None \<Rightarrow> Inl TypeError
              | Some t \<Rightarrow>
                  (case classifyWithMissingData B observations t of
                     Inl e \<Rightarrow> Inl e
                   | Inr tr \<Rightarrow>
                       (case fB of
                          None \<Rightarrow> Inl TypeError
                        | Some f \<Rightarrow>
                            (case classifyWithMissingData B observations f of
                               Inl e \<Rightarrow> Inl e
                             | Inr fr \<Rightarrow> Inr (blend tr fr)))))
           else if goes_true B (at_index observations c) tv
           then (case tB of None \<Rightarrow> Inl TypeError
                 | Some t \<Rightarrow> classifyWithMissingData B observations t)
           else (case fB of None \<Rightarrow> Inl TypeError
                 | Some f \<Rightarrow> classifyWithMissingData B observations f)))"

definition classify :: "builtins \<Rightarrow> row \<Rightarrow> tree \<Rightarrow> bool \<Rightarrow> unit error + dist" where
  "classify B observations t dataMissing =
     (if dataMissing then classifyWithMissingData B observations t
      else classifyWithoutMissingData B observations t)"

section \<open>Notions the properties are stated with\<close>

text \<open>\<open>summary.samples\<close>: \<open>undefined\<close> on the empty object.\<close>

definition sample_count :: "summary \<Rightarrow> nat option" where
  "sample_count s = (case s of EmptySummary \<Rightarrow> None | Summary i n \<Rightarrow> Some n)"

text \<open>All nodes of a tree, the root first.\<close>

fun nodes :: "tree \<Rightarrow> tree list" where
  "nodes (DecisionTree c v tB fB res summ) =
     DecisionTree c v tB fB res summ
       # (case tB of None \<Rightarrow> [] | Some t \<Rightarrow> nodes t)
       @ (case fB of None \<Rightarrow> [] | Some f \<Rightarrow> nodes f)"



definition count_total :: "counts \<Rightarrow> nat" where
  "count_total cs = sum_list (map snd cs)"






text \<open>A sequence of \<open>prune\<close> calls on one tree, each with its own arguments.\<close>

fun prune_seq ::
  "builtins \<Rightarrow> ('e metric \<times> jsnum \<times> bool) list \<Rightarrow> tree \<Rightarrow> 'e error + tree" where
  "prune_seq B [] t = Inr t"
| "prune_seq B ((ef, minGain, notify) # calls) t =
     (case prune B ef minGain notify t of
        Inl e \<Rightarrow> Inl e
      | Inr (t', lg) \<Rightarrow> prune_seq B calls t')"

text \<open>A candidate both of whose partitions are non-empty.\<close>

definition valid_split :: "builtins \<Rightarrow> row list \<Rightarrow> nat \<times> jsval \<Rightarrow> bool" where
  "valid_split B rows cv =
     (fst (divideSet B rows (fst cv) (snd cv)) \<noteq> [] \<and>
      snd (divideSet B rows (fst cv) (snd cv)) \<noteq> [])"

text \<open>
  The invariant of the search loop after the candidates \<open>visited\<close>: the best gain is a
  number and not negative, no visited candidate with two non-empty partitions has a
  greater gain, and the recorded attribute, if any, is a visited candidate with that gain,
  greater than 0, before which no such candidate has the same gain.
\<close>

definition search_inv ::
  "builtins \<Rightarrow> 'e metric \<Rightarrow> row list \<Rightarrow> jsnum \<Rightarrow> (nat \<times> jsval) list \<Rightarrow> best \<Rightarrow> bool" where
  "search_inv B ef rows cs visited st =
     (fst st \<noteq> NaN \<and> \<not> ngt (Fin 0) (fst st) \<and>
      (\<forall>cv \<in> set visited. valid_split B rows cv \<longrightarrow>
         (\<exists>g. gain_of B ef rows cs cv = Inr g \<and> \<not> ngt g (fst st))) \<and>
      (case snd st of
         None \<Rightarrow> fst st = Fin 0
       | Some (a, sets) \<Rightarrow>
           divideSet B rows (fst a) (snd a) = sets \<and> valid_split B rows a \<and>
           gain_of B ef rows cs a = Inr (fst st) \<and> ngt (fst st) (Fin 0) \<and>
           (\<exists>pre post. visited = pre @ a # post \<and>
              (\<forall>cv \<in> set pre. valid_split B rows cv \<longrightarrow>
                 gain_of B ef rows cs cv \<noteq> Inr (fst st)))))"



definition finite_number :: "real \<Rightarrow> jsval" where
  "finite_number x = Num (Fin x)"

text \<open>The mean squared deviation of numbers from their mean.\<close>

definition mean_squared_deviation :: "real list \<Rightarrow> real" where
  "mean_squared_deviation xs =
     (let n = real (length xs); mean = sum_list xs / n
      in sum_list (map (\<lambda>x. (x - mean) * (x - mean)) xs) / n)"

definition is_finite :: "jsnum \<Rightarrow> bool" where
  "is_finite x = (case x of Fin a \<Rightarrow> True | _ \<Rightarrow> False)"


text \<open>A node whose branches have been discarded.\<close>

definition collapsed :: "tree \<Rightarrow> bool" where
  "collapsed n = (trueBranch n = None \<and> falseBranch n = None)"

text \<open>
  A child \<open>t\<close> of a node after \<open>prune\<close> has dealt with it: pruned by the recursive call
  when it was no leaf, left alone otherwise; \<open>lg\<close> is what the call logged.
\<close>

definition child_pruned ::
  "builtins \<Rightarrow> 'e metric \<Rightarrow> jsnum \<Rightarrow> bool \<Rightarrow> tree \<Rightarrow> tree \<Rightarrow> jsnum list \<Rightarrow> bool" where
  "child_pruned B ef minGain notify t t' lg =
     (if results t = None then prune B ef minGain notify t = Inr (t', lg)
      else t' = t \<and> lg = [])"

text \<open>
  Distributions read as real weights: the weight of a label (0 when absent), the total,
  and what the leaves of a tree that rows reached give: distinct labels, weights that
  are finite and not negative, a positive total.
\<close>

definition fin_of :: "jsnum \<Rightarrow> real" where
  "fin_of x = (case x of Fin a \<Rightarrow> a | _ \<Rightarrow> 0)"


definition total :: "dist \<Rightarrow> real" where
  "total d = sum_list (map (\<lambda>(k, x). fin_of x) d)"



definition positive_leaves :: "tree \<Rightarrow> bool" where
  "positive_leaves t =
     list_all (\<lambda>n. case results n of None \<Rightarrow> True
                   | Some r \<Rightarrow> distinct (map fst r) \<and> 0 < count_total r) (nodes t)"

subsection \<open>Example data\<close>

text \<open>
  An instance of the conversions for the examples below, whose strings are empty or no
  numerals and whose labels are strings.
\<close>

definition example_builtins :: builtins where
  "example_builtins =
     \<lparr>string_to_number = (\<lambda>s. if s = [] then Fin 0 else NaN),
      number_to_string = (\<lambda>n. ''n''),
      to_precision = (\<lambda>n d. ''p'')\<rparr>"

definition rows4 :: "row list" where
  "rows4 = [[Num (Fin 1), Str ''A''], [Num (Fin 2), Str ''A''],
            [Num (Fin 3), Str ''B''], [Num (Fin 4), Str ''B'']]"

definition tree4 :: "builtins \<Rightarrow> tree" where
  "tree4 B =
     DecisionTree 0 (Num (Fin 3))
       (Some (DecisionTree (- 1) Null None None (Some [(''B'', 2)])
                (Summary (to_precision B (Fin 0) 3) 2)))
       (Some (DecisionTree (- 1) Null None None (Some [(''A'', 2)])
                (Summary (to_precision B (Fin 0) 3) 2)))
       None (Summary (to_precision B (Fin (1 / 2)) 3) 4)"


definition leafA :: "builtins \<Rightarrow> tree" where
  "leafA B =
     DecisionTree (- 1) Null None None (Some [(''A'', 1)])
       (Summary (to_precision B (Fin 0) 3) 1)"




section \<open>Lemmas about numbers\<close>

lemma ngt_irrefl: "\<not> ngt x x"
  by (cases x) auto

lemma ngt_trans: "ngt x y \<Longrightarrow> ngt y z \<Longrightarrow> ngt x z"
  by (cases x; cases y; cases z) auto

lemma ngt_not_NaN: "ngt x y \<Longrightarrow> x \<noteq> NaN \<and> y \<noteq> NaN"
  by (cases x; cases y) auto

lemma ngt_above: "ngt x y \<Longrightarrow> \<not> ngt z y \<Longrightarrow> z \<noteq> NaN \<Longrightarrow> x = z \<or> ngt x z"
  by (cases x; cases y; cases z) auto

lemma nadd_not_NaN: "nadd x y \<noteq> NaN \<Longrightarrow> x \<noteq> NaN \<and> y \<noteq> NaN"
  by (cases x; cases y) auto

lemma nneg_NaN: "(nneg x = NaN) = (x = NaN)"
  by (cases x) auto

lemma nsub_not_NaN: "nsub x y \<noteq> NaN \<Longrightarrow> x \<noteq> NaN \<and> y \<noteq> NaN"
  by (auto simp: nsub_def nneg_NaN dest: nadd_not_NaN)

lemma nmul_not_NaN: "nmul x y \<noteq> NaN \<Longrightarrow> x \<noteq> NaN \<and> y \<noteq> NaN"
  by (cases x; cases y) auto

lemma nadd_NaN_right [simp]: "nadd x NaN = NaN"
  by (cases x) auto

lemma ngt_NaN_right [simp]: "\<not> ngt x NaN"
  by (cases x) auto

section \<open>Lemmas about the variance metric\<close>

text \<open>
  What \<open>variance\<close> does: 0 on no rows; the error exactly when the first target that is
  not a number is truthy; the mean squared deviation when all targets are finite numbers.
\<close>

lemma variance_empty: "variance B [] = Inr (Fin 0)"
  by (simp add: variance_def)

lemma variance_throws_iff:
  "(variance B rows = Inl InvalidTargetType) =
     (rows \<noteq> [] \<and> truthy (find_js (\<lambda>p. \<not> isNumber p) (map target rows)))"
  by (simp add: variance_def Let_def)

lemma sum_js_numbers_fold:
  "fold (\<lambda>v acc. js_plus B acc v) (map finite_number xs) (Num (Fin a))
     = Num (Fin (a + sum_list xs))"
  by (induction xs arbitrary: a)
     (auto simp: js_plus_def finite_number_def to_number_def)

lemma sum_js_numbers: "sum_js B (map finite_number xs) = Num (Fin (sum_list xs))"
  by (simp add: sum_js_def sum_js_numbers_fold)

lemma sum_js_numbers_comp:
  "sum_js B (map (finite_number \<circ> f) xs) = Num (Fin (sum_list (map f xs)))"
  using sum_js_numbers [of B "map f xs"] by simp

lemma find_js_numbers: "find_js (\<lambda>p. \<not> isNumber p) (map finite_number xs) = Undefined"
proof -
  have "find (\<lambda>p. \<not> isNumber p) (map finite_number xs) = None"
    by (simp add: find_None_iff finite_number_def isNumber_def)
  then show ?thesis by (simp add: find_js_def)
qed

lemma variance_numbers:
  assumes "xs \<noteq> []" and "map target rows = map finite_number xs"
  shows "variance B rows = Inr (Fin (mean_squared_deviation xs))"
proof -
  from assms have ne: "rows \<noteq> []" by auto
  from assms(2) have len: "length rows = length xs"
    by (metis length_map)
  let ?n = "real (length xs)"
  let ?mean = "sum_list xs / ?n"
  have n0: "?n \<noteq> 0" using assms(1) by simp
  have mean: "ndiv (to_number B (sum_js B (map finite_number xs))) (Fin ?n) = Fin ?mean"
    using n0 by (simp add: sum_js_numbers to_number_def)
  have sq: "(\<lambda>d. Num (nmul (nsub (to_number B d) (Fin ?mean))
                          (nsub (to_number B d) (Fin ?mean)))) \<circ> finite_number
            = finite_number \<circ> (\<lambda>x. (x - ?mean) * (x - ?mean))"
    by (auto simp: fun_eq_iff finite_number_def to_number_def nsub_def)
  have "variance B rows =
          Inr (ndiv (to_number B (sum_js B
                 (map finite_number (map (\<lambda>x. (x - ?mean) * (x - ?mean)) xs)))) (Fin ?n))"
    using ne by (simp add: variance_def Let_def assms(2) find_js_numbers truthy_def mean sq len
        del: ndiv.simps)
  also have "\<dots> = Inr (Fin (mean_squared_deviation xs))"
    using n0 by (simp add: sum_js_numbers_comp to_number_def mean_squared_deviation_def Let_def)
  finally show ?thesis .
qed

section \<open>Lemmas about the builder\<close>

declare growDecisionTreeFrom.simps [simp del]

lemma grow_empty: "growDecisionTreeFrom B ef [] = Inr default_tree"
  by (simp add: growDecisionTreeFrom.simps)

lemma grow_cases:
  assumes "growDecisionTreeFrom B ef rows = Inr t" and "rows \<noteq> []"
  obtains (leaf) cs bg best where
      "ef rows = Inr cs" "cs \<noteq> NaN" "best_split B ef rows cs = Inr (bg, best)"
      "\<not> ngt bg (Fin 0)"
      "t = DecisionTree (- 1) Null None None (Some (uniqueCounts B rows))
             (Summary (to_precision B cs 3) (length rows))"
  | (node) cs bg a s1 s2 tt ff where
      "ef rows = Inr cs" "cs \<noteq> NaN" "best_split B ef rows cs = Inr (bg, Some (a, (s1, s2)))"
      "ngt bg (Fin 0)"
      "growDecisionTreeFrom B ef s1 = Inr tt" "growDecisionTreeFrom B ef s2 = Inr ff"
      "t = DecisionTree (int (fst a)) (snd a) (Some tt) (Some ff) None
             (Summary (to_precision B cs 3) (length rows))"
  using assms
  by (subst (asm) growDecisionTreeFrom.simps)
     (auto split: sum.splits if_splits prod.splits option.splits simp: Let_def)

lemma bump_total: "count_total (bump k cs) = Suc (count_total cs)"
  by (induction k cs rule: bump.induct) (auto simp: count_total_def)

lemma fold_bump_total:
  "count_total (fold (\<lambda>r res. bump (g r) res) rows acc) = length rows + count_total acc"
  by (induction rows arbitrary: acc) (auto simp: bump_total)

lemma uniqueCounts_total: "count_total (uniqueCounts B rows) = length rows"
  by (simp add: uniqueCounts_def fold_bump_total) (simp add: count_total_def)













lemma grow_leaf_no_children:
  assumes "growDecisionTreeFrom B ef rows = Inr t" and "rows = [] \<or> results t \<noteq> None"
  shows "trueBranch t = None"
proof (cases "rows = []")
  case True
  with assms(1) show ?thesis by (auto simp: grow_empty default_tree_def)
next
  case False
  with assms(2) have r: "results t \<noteq> None" by simp
  from assms(1) False show ?thesis
    using r by (cases rule: grow_cases) auto
qed

subsection \<open>The search loop\<close>

lemma try_candidate_inv:
  assumes "try_candidate B ef rows cs cv st = Inr st'"
    and "search_inv B ef rows cs visited st"
  shows "search_inv B ef rows cs (visited @ [cv]) st'"
proof -
  from assms(1) obtain g where g: "gain_of B ef rows cs cv = Inr g"
    by (auto simp: try_candidate_def split: sum.splits)
  show ?thesis
  proof (cases "ngt g (fst st) \<and> valid_split B rows cv")
    case True
    with assms(1) g have st': "st' = (g, Some (cv, divideSet B rows (fst cv) (snd cv)))"
      by (auto simp: try_candidate_def valid_split_def split: prod.splits)
    from True have gn: "g \<noteq> NaN" by (auto dest: ngt_not_NaN)
    from assms(2) have b0: "\<not> ngt (Fin 0) (fst st)" "fst st \<noteq> NaN"
      by (auto simp: search_inv_def)
    have g0: "\<not> ngt (Fin 0) g"
      using True b0 by (auto dest: ngt_trans)
    have gpos: "ngt g (Fin 0)"
      using True b0 ngt_above [of g "fst st" "Fin 0"] assms(2)
      by (auto simp: search_inv_def split: option.splits dest: ngt_trans)
    have old: "\<forall>c \<in> set visited. valid_split B rows c \<longrightarrow>
         (\<exists>h. gain_of B ef rows cs c = Inr h \<and> \<not> ngt h g \<and> h \<noteq> g)"
    proof (intro ballI impI)
      fix c assume "c \<in> set visited" "valid_split B rows c"
      with assms(2) obtain h where h: "gain_of B ef rows cs c = Inr h" "\<not> ngt h (fst st)"
        by (auto simp: search_inv_def)
      from h(2) True have "\<not> ngt h g" "h \<noteq> g" by (auto dest: ngt_trans)
      with h(1) show "\<exists>h. gain_of B ef rows cs c = Inr h \<and> \<not> ngt h g \<and> h \<noteq> g" by blast
    qed
    have "\<exists>pre post. visited @ [cv] = pre @ cv # post \<and>
              (\<forall>c \<in> set pre. valid_split B rows c \<longrightarrow> gain_of B ef rows cs c \<noteq> Inr g)"
      using old by (intro exI [of _ visited] exI [of _ "[]"]) auto
    with True g gn g0 gpos old show ?thesis
      unfolding search_inv_def st' by (auto simp: ngt_irrefl)
  next
    case False
    with assms(1) g have st': "st' = st"
      by (auto simp: try_candidate_def valid_split_def split: prod.splits)
    from assms(2) have i: "fst st \<noteq> NaN" "\<not> ngt (Fin 0) (fst st)"
      "\<forall>c \<in> set visited. valid_split B rows c \<longrightarrow>
         (\<exists>h. gain_of B ef rows cs c = Inr h \<and> \<not> ngt h (fst st))"
      by (auto simp: search_inv_def)
    from False g i(3) have all: "\<forall>c \<in> set (visited @ [cv]). valid_split B rows c \<longrightarrow>
         (\<exists>h. gain_of B ef rows cs c = Inr h \<and> \<not> ngt h (fst st))"
      by auto
    show ?thesis
    proof (cases "snd st")
      case None
      with assms(2) i all show ?thesis
        unfolding search_inv_def st' by simp
    next
      case (Some b)
      obtain a sets where b: "b = (a, sets)" by (cases b)
      from assms(2) Some b obtain pre post where
        pp: "visited = pre @ a # post"
          "\<forall>c \<in> set pre. valid_split B rows c \<longrightarrow> gain_of B ef rows cs c \<noteq> Inr (fst st)"
        and rest: "divideSet B rows (fst a) (snd a) = sets" "valid_split B rows a"
          "gain_of B ef rows cs a = Inr (fst st)" "ngt (fst st) (Fin 0)"
        unfolding search_inv_def by auto
      from pp(1) have "visited @ [cv] = pre @ a # (post @ [cv])" by simp
      with pp(2) have "\<exists>pre post. visited @ [cv] = pre @ a # post \<and>
              (\<forall>c \<in> set pre. valid_split B rows c \<longrightarrow>
                 gain_of B ef rows cs c \<noteq> Inr (fst st))"
        by blast
      with Some b rest i all show ?thesis
        unfolding search_inv_def st' by simp
    qed
  qed
qed

lemma search_inv:
  assumes "search B ef rows cs cvs st = Inr st'"
    and "search_inv B ef rows cs visited st"
  shows "search_inv B ef rows cs (visited @ cvs) st'"
  using assms
proof (induction cvs arbitrary: st visited)
  case Nil
  then show ?case by simp
next
  case (Cons cv cvs)
  from Cons.prems(1) obtain st1 where
    t: "try_candidate B ef rows cs cv st = Inr st1" and
    s: "search B ef rows cs cvs st1 = Inr st'"
    by (auto split: sum.splits)
  from Cons.IH [OF s try_candidate_inv [OF t Cons.prems(2)]] show ?case by simp
qed

lemma best_split_inv:
  assumes "best_split B ef rows cs = Inr st"
  shows "search_inv B ef rows cs (candidates B rows) st"
proof -
  have "search_inv B ef rows cs [] (Fin 0, None)"
    by (simp add: search_inv_def)
  from search_inv [OF assms [unfolded best_split_def] this] show ?thesis by simp
qed

lemma gain_of_not_NaN:
  assumes "gain_of B ef rows cs cv = Inr g" and "g \<noteq> NaN"
  shows "\<exists>m1 m2. ef (fst (divideSet B rows (fst cv) (snd cv))) = Inr m1 \<and> m1 \<noteq> NaN \<and>
                 ef (snd (divideSet B rows (fst cv) (snd cv))) = Inr m2 \<and> m2 \<noteq> NaN"
  using assms
  by (auto simp: gain_of_def Let_def split: prod.splits sum.splits
        dest!: nsub_not_NaN nmul_not_NaN)

lemma best_split_scores:
  assumes "best_split B ef rows cs = Inr (bg, Some (a, (s1, s2)))"
  shows "\<exists>m1 m2. ef s1 = Inr m1 \<and> m1 \<noteq> NaN \<and> ef s2 = Inr m2 \<and> m2 \<noteq> NaN"
proof -
  from best_split_inv [OF assms] have
    d: "divideSet B rows (fst a) (snd a) = (s1, s2)" and
    g: "gain_of B ef rows cs a = Inr bg" and n: "bg \<noteq> NaN"
    by (auto simp: search_inv_def)
  from gain_of_not_NaN [OF g n] d show ?thesis by simp
qed

lemma grow_InvalidMetric:
  "growDecisionTreeFrom B ef rows = Inl InvalidMetric \<Longrightarrow> ef rows = Inr NaN"
proof (induction rows rule: length_induct)
  case (1 rows)
  have ne: "rows \<noteq> []" using 1(2) by (auto simp: grow_empty)
  show ?case
  proof (rule ccontr)
    assume c: "ef rows \<noteq> Inr NaN"
    from 1(2) ne c obtain cs bg a s1 s2 where
      b: "best_split B ef rows cs = Inr (bg, Some (a, (s1, s2)))" and
      ch: "growDecisionTreeFrom B ef s1 = Inl InvalidMetric \<or>
           growDecisionTreeFrom B ef s2 = Inl InvalidMetric"
      by (subst (asm) growDecisionTreeFrom.simps)
         (auto split: sum.splits if_splits prod.splits option.splits simp: Let_def)
    from best_split_shorter [OF b] 1(1) ch have "ef s1 = Inr NaN \<or> ef s2 = Inr NaN"
      by blast
    with best_split_scores [OF b] show False by auto
  qed
qed

lemma grow_no_TypeError: "growDecisionTreeFrom B ef rows \<noteq> Inl TypeError"
proof (induction rows rule: length_induct)
  case (1 rows)
  show ?case
  proof
    assume e: "growDecisionTreeFrom B ef rows = Inl TypeError"
    then have ne: "rows \<noteq> []" by (auto simp: grow_empty)
    from e ne consider
      (none) cs bg where "best_split B ef rows cs = Inr (bg, None)" "ngt bg (Fin 0)"
    | (child) cs bg a s1 s2 where "best_split B ef rows cs = Inr (bg, Some (a, (s1, s2)))"
        "growDecisionTreeFrom B ef s1 = Inl TypeError \<or>
         growDecisionTreeFrom B ef s2 = Inl TypeError"
      by (subst (asm) growDecisionTreeFrom.simps)
         (auto split: sum.splits if_splits prod.splits option.splits simp: Let_def)
    then show False
    proof cases
      case none
      from best_split_inv [OF none(1)] none(2) show False
        by (simp add: search_inv_def)
    next
      case child
      from best_split_shorter [OF child(1)] 1 child(2) show False by blast
    qed
  qed
qed



subsection \<open>The order of the values of a column\<close>












section \<open>Lemmas about the pruner\<close>

lemma prune_no_true_branch:
  "trueBranch t = None \<Longrightarrow> prune B ef minGain notify t = Inl TypeError"
  by (cases t) simp



lemma length_expand: "length (expand cs) = count_total cs"
  by (induction cs) (auto simp: expand_def count_total_def)

lemma uniqueCounts_expand_total:
  "count_total (uniqueCounts B (expand tr @ expand fr)) = count_total tr + count_total fr"
  by (simp add: uniqueCounts_total length_expand)


lemma prune_cases:
  assumes "prune B ef minGain notify (DecisionTree c v tB fB res summ) = Inr (n', lg)"
  obtains t f t' f' l1 l2 where "tB = Some t" "fB = Some f"
    "child_pruned B ef minGain notify t t' l1" "child_pruned B ef minGain notify f f' l2"
    "case (results t', results f') of
       (Some tr, Some fr) \<Rightarrow>
         (\<exists>delta. prune_delta ef (expand tr) (expand fr) = Inr delta \<and>
            (if nlt delta minGain
             then n' = DecisionTree c v None None
                         (Some (uniqueCounts B (expand tr @ expand fr))) summ \<and>
                  lg = l1 @ l2 @ (if notify then [delta] else [])
             else n' = DecisionTree c v (Some t') (Some f') res summ \<and> lg = l1 @ l2))
     | _ \<Rightarrow> n' = DecisionTree c v (Some t') (Some f') res summ \<and> lg = l1 @ l2"
proof -
  from assms obtain t f where tf: "tB = Some t" "fB = Some f"
    by (auto split: option.splits sum.splits)
  from assms tf obtain t' l1 where
    ta: "(if results t = None then prune B ef minGain notify t else Inr (t, [])) = Inr (t', l1)"
    by (auto split: sum.splits)
  from assms tf ta obtain f' l2 where
    fa: "(if results f = None then prune B ef minGain notify f else Inr (f, [])) = Inr (f', l2)"
    by (auto split: sum.splits)
  have ct: "child_pruned B ef minGain notify t t' l1"
    using ta by (auto simp: child_pruned_def split: if_splits)
  have cf: "child_pruned B ef minGain notify f f' l2"
    using fa by (auto simp: child_pruned_def split: if_splits)
  from assms have
    "(case (results t', results f') of
        (Some tr, Some fr) \<Rightarrow>
          (let tb = expand tr; fb = expand fr
           in case prune_delta ef tb fb of
                Inl e \<Rightarrow> Inl (Thrown e)
              | Inr delta \<Rightarrow>
                  if nlt delta minGain
                  then Inr (DecisionTree c v None None (Some (uniqueCounts B (tb @ fb))) summ,
                            l1 @ l2 @ (if notify then [delta] else []))
                  else Inr (DecisionTree c v (Some t') (Some f') res summ, l1 @ l2))
      | _ \<Rightarrow> Inr (DecisionTree c v (Some t') (Some f') res summ, l1 @ l2)) = Inr (n', lg)"
    unfolding prune.simps tf option.case ta sum.case prod.case fa .
  then have
    "case (results t', results f') of
       (Some tr, Some fr) \<Rightarrow>
         (\<exists>delta. prune_delta ef (expand tr) (expand fr) = Inr delta \<and>
            (if nlt delta minGain
             then n' = DecisionTree c v None None
                         (Some (uniqueCounts B (expand tr @ expand fr))) summ \<and>
                  lg = l1 @ l2 @ (if notify then [delta] else [])
             else n' = DecisionTree c v (Some t') (Some f') res summ \<and> lg = l1 @ l2))
     | _ \<Rightarrow> n' = DecisionTree c v (Some t') (Some f') res summ \<and> lg = l1 @ l2"
    by (auto simp: Let_def split: option.splits sum.splits if_splits)
  with tf ct cf show ?thesis by (rule that)
qed

section \<open>Lemmas about the classifier\<close>














lemma positive_leaves_simps:
  "positive_leaves (DecisionTree c v tB fB res summ) =
     ((case res of None \<Rightarrow> True | Some r \<Rightarrow> distinct (map fst r) \<and> 0 < count_total r) \<and>
      (case tB of None \<Rightarrow> True | Some t \<Rightarrow> positive_leaves t) \<and>
      (case fB of None \<Rightarrow> True | Some f \<Rightarrow> positive_leaves f))"
  by (auto simp: positive_leaves_def split: option.splits)


subsection \<open>Trees whose leaves rows reached\<close>

lemma bump_keys: "set (map fst (bump k cs)) = insert k (set (map fst cs))"
  by (induction k cs rule: bump.induct) auto

lemma bump_distinct: "distinct (map fst cs) \<Longrightarrow> distinct (map fst (bump k cs))"
proof (induction k cs rule: bump.induct)
  case (1 k)
  then show ?case by simp
next
  case (2 k k' c kvs)
  then show ?case using bump_keys [of k kvs] by auto
qed

lemma fold_bump_distinct:
  "distinct (map fst acc) \<Longrightarrow> distinct (map fst (fold (\<lambda>r res. bump (g r) res) rows acc))"
  by (induction rows arbitrary: acc) (auto simp: bump_distinct)

lemma uniqueCounts_distinct: "distinct (map fst (uniqueCounts B rows))"
  by (simp add: uniqueCounts_def fold_bump_distinct)

lemma grow_positive_leaves:
  "growDecisionTreeFrom B ef rows = Inr t \<Longrightarrow> rows \<noteq> [] \<Longrightarrow> positive_leaves t"
proof (induction rows arbitrary: t rule: length_induct)
  case (1 rows)
  from 1(2,3) show ?case
  proof (cases rule: grow_cases)
    case (leaf cs bg best)
    with 1(3) show ?thesis
      by (simp add: positive_leaves_simps uniqueCounts_distinct uniqueCounts_total)
  next
    case (node cs bg a s1 s2 tt ff)
    from best_split_sets [OF node(3)] have ne: "s1 \<noteq> []" "s2 \<noteq> []" by auto
    from best_split_shorter [OF node(3)] 1(1) node(5,6) ne
    have "positive_leaves tt" "positive_leaves ff" by blast+
    then show ?thesis using node(7) by (simp add: positive_leaves_simps)
  qed
qed

lemma prune_positive_leaves:
  "prune B ef g notify t = Inr (t', lg) \<Longrightarrow> positive_leaves t \<Longrightarrow> positive_leaves t'"
proof (induction B ef g notify t arbitrary: t' lg rule: prune.induct)
  case (1 B ef g notify c v tB fB res summ)
  from "1.prems"(1) show ?case
  proof (cases rule: prune_cases)
    case (1 t f ta fa l1 l2)
    note c = this
    from "1.prems"(2) c(1,2) have pl: "positive_leaves t" "positive_leaves f"
      and pr: "case res of None \<Rightarrow> True | Some r \<Rightarrow> distinct (map fst r) \<and> 0 < count_total r"
      by (auto simp: positive_leaves_simps)
    have ta: "(if results t = None then prune B ef g notify t else Inr (t, [])) = Inr (ta, l1)"
      using c(3) by (auto simp: child_pruned_def split: if_splits)
    have pta: "positive_leaves ta"
      using c(3) pl(1) "1.IH"(1) [OF c(1)] by (auto simp: child_pruned_def split: if_splits)
    have pfa: "positive_leaves fa"
      using c(4) pl(2) "1.IH"(2) [OF c(1) ta refl c(2)]
      by (auto simp: child_pruned_def split: if_splits)
    have res_pos: "0 < count_total r" if "results n = Some r" "positive_leaves n" for n r
      using that by (cases n) (auto simp: positive_leaves_simps)
    from c(5) pta pfa pr show ?thesis
      by (auto simp: positive_leaves_simps uniqueCounts_distinct uniqueCounts_expand_total
            dest: res_pos split: option.splits if_splits)
  qed
qed

lemma prune_seq_positive_leaves:
  "prune_seq B calls t = Inr t' \<Longrightarrow> positive_leaves t \<Longrightarrow> positive_leaves t'"
  by (induction B calls t rule: prune_seq.induct)
     (auto split: sum.splits dest: prune_positive_leaves)


text \<open>The trees that the program builds have leaves that rows reached.\<close>

lemma built_trees_positive:
  assumes "rows \<noteq> []" and "growDecisionTreeFrom B ef rows = Inr t"
    and "prune_seq B calls t = Inr t'"
  shows "positive_leaves t \<and> positive_leaves t'"
  using grow_positive_leaves [OF assms(2,1)] prune_seq_positive_leaves [OF assms(3)]
  by simp



section \<open>The examples, evaluated\<close>

lemmas eval_defs =
  uniqueCounts_def to_string_def target_def at_index_def gini_def GINI_def
  candidates_def columnCount_def lsUnique_def columnValues_def distinct_values_def js_sort_def
  compare_sub_def to_number_def nsub_def best_split_def try_candidate_def gain_of_def
  divideSet_def splittingFunction_def isNumber_def js_ge_def nge_def strict_eq_def

lemma gini_rows4: "gini B rows4 = Fin (1 / 2)"
  by (simp add: rows4_def eval_defs)

lemma best_rows4:
  "best_split B (GINI B) rows4 (Fin (1 / 2)) =
     Inr (Fin (1 / 2), Some ((0, Num (Fin 3)),
            ([[Num (Fin 3), Str ''B''], [Num (Fin 4), Str ''B'']],
             [[Num (Fin 1), Str ''A''], [Num (Fin 2), Str ''A'']])))"
  by (simp add: rows4_def eval_defs)

lemma grow_true4:
  "growDecisionTreeFrom B (GINI B) [[Num (Fin 3), Str ''B''], [Num (Fin 4), Str ''B'']] =
     Inr (DecisionTree (- 1) Null None None (Some [(''B'', 2)])
            (Summary (to_precision B (Fin 0) 3) 2))"
  by (subst growDecisionTreeFrom.simps) (simp add: eval_defs)

lemma grow_false4:
  "growDecisionTreeFrom B (GINI B) [[Num (Fin 1), Str ''A''], [Num (Fin 2), Str ''A'']] =
     Inr (DecisionTree (- 1) Null None None (Some [(''A'', 2)])
            (Summary (to_precision B (Fin 0) 3) 2))"
  by (subst growDecisionTreeFrom.simps) (simp add: eval_defs)

lemma grow_rows4: "growDecisionTreeFrom B (GINI B) rows4 = Inr (tree4 B)"
  by (subst growDecisionTreeFrom.simps)
     (simp add: best_rows4 grow_true4 grow_false4 tree4_def GINI_def gini_rows4,
      simp add: rows4_def)


lemma grow_single: "growDecisionTreeFrom B (GINI B) [[Str ''A'']] = Inr (leafA B)"
  by (subst growDecisionTreeFrom.simps) (simp add: eval_defs leafA_def)








lemma classify_exact4:
  "classify B [Num (Fin 3), x] (tree4 B) False = Inr [(''B'', Fin 2)]"
  by (simp add: classify_def tree4_def goes_true_def at_index_def isNumber_def js_ge_def
        nge_def to_number_def weights_def)

lemma classify_missing4:
  "classify B [Null, x] (tree4 B) True = Inr [(''B'', Fin 1), (''A'', Fin 1)]"
  by (simp add: classify_def tree4_def at_index_def weights_def blend_def sum_weights_def)

lemma gain4: "gain_of B (GINI B) rows4 (Fin (1 / 2)) (0, Num (Fin 3)) = Inr (Fin (1 / 2))"
  by (simp add: rows4_def eval_defs)



section \<open>The claims\<close>






text \<open>
  Claim C3. On the rows \<open>[[1,"A"],[2,"A"],[3,"B"],[4,"B"]]\<close> with the Gini metric the
  builder returns a root that splits on column 0 with value 3 (a number, so the predicate
  is \<open>row[0] >= 3\<close>), the impurity of the root is 0.5 (recorded in the summary through
  \<open>toPrecision(3)\<close>) and the gain of the winning candidate is 0.5; the true branch is the
  leaf \<open>{B: 2}\<close> and the false branch the leaf \<open>{A: 2}\<close>. On this tree exact routing of
  \<open>[3, x]\<close> returns \<open>{B: 2}\<close>, and missing-data routing of \<open>[null, x]\<close> returns the
  distribution with weight 1 for \<open>A\<close> and for \<open>B\<close>.
\<close>

theorem end_to_end_example:
  "growDecisionTreeFrom B (GINI B) rows4 = Inr (tree4 B) \<and>
   col (tree4 B) = 0 \<and> split_value (tree4 B) = Num (Fin 3) \<and>
   splittingFunction B 0 (Num (Fin 3)) r = js_ge B (at_index r 0) (Num (Fin 3)) \<and>
   gini B rows4 = Fin (1 / 2) \<and>
   summary (tree4 B) = Summary (to_precision B (Fin (1 / 2)) 3) 4 \<and>
   gain_of B (GINI B) rows4 (Fin (1 / 2)) (0, Num (Fin 3)) = Inr (Fin (1 / 2)) \<and>
   map_option results (trueBranch (tree4 B)) = Some (Some [(''B'', 2)]) \<and>
   map_option results (falseBranch (tree4 B)) = Some (Some [(''A'', 2)]) \<and>
   map_option collapsed (trueBranch (tree4 B)) = Some True \<and>
   map_option collapsed (falseBranch (tree4 B)) = Some True \<and>
   classify B [Num (Fin 3), x] (tree4 B) False = Inr [(''B'', Fin 2)] \<and>
   classify B [Null, x] (tree4 B) True = Inr [(''B'', Fin 1), (''A'', Fin 1)] \<and>
   map_of [(''B'', Fin 1), (''A'', Fin 1)] = map_of [(''A'', Fin 1), (''B'', Fin 1)]"
proof -
  have "map_of [(''B'', Fin 1), (''A'', Fin 1)] = map_of [(''A'', Fin 1), (''B'', Fin 1)]"
    by (auto simp: fun_eq_iff)
  moreover have "splittingFunction B 0 (Num (Fin 3)) r = js_ge B (at_index r 0) (Num (Fin 3))"
    by (simp add: splittingFunction_def isNumber_def)
  moreover have "col (tree4 B) = 0" "split_value (tree4 B) = Num (Fin 3)"
    "summary (tree4 B) = Summary (to_precision B (Fin (1 / 2)) 3) 4"
    "map_option results (trueBranch (tree4 B)) = Some (Some [(''B'', 2)])"
    "map_option results (falseBranch (tree4 B)) = Some (Some [(''A'', 2)])"
    "map_option collapsed (trueBranch (tree4 B)) = Some True"
    "map_option collapsed (falseBranch (tree4 B)) = Some True"
    by (simp_all add: tree4_def collapsed_def)
  ultimately show ?thesis
    by (simp only: grow_rows4 gini_rows4 gain4 classify_exact4 classify_missing4 simp_thms)
qed









text \<open>
  Claim C7 (the program departs from it). \<open>variance\<close> tests the element that
  \<open>data.find(p => !isNumber(p))\<close> returns for truthiness, so a first non-numeric target that
  is falsy, here the empty string, is not reported: the call returns a number where the
  claim, and the message of the error, say it throws.
\<close>

theorem variance_empty_string_target:
  "\<not> isNumber (Str []) \<and> target [Num (Fin 1), Str []] = Str [] \<and>
   (\<exists>y. variance B [[Num (Fin 1), Str []]] = Inr y)"
  by (simp add: variance_def target_def at_index_def find_js_def isNumber_def truthy_def Let_def)

text \<open>
  Claim C8, amended. For every non-empty row set the builder throws the InvalidMetric
  error if and only if the evaluation function applied to the full row set returns NaN.
  When that score is any other number, finite or infinite, no InvalidMetric error is
  raised anywhere in the recursion.
\<close>

theorem invalid_metric_iff:
  assumes "rows \<noteq> []"
  shows "(growDecisionTreeFrom B ef rows = Inl InvalidMetric) = (ef rows = Inr NaN)"
proof
  assume "growDecisionTreeFrom B ef rows = Inl InvalidMetric"
  then show "ef rows = Inr NaN" by (rule grow_InvalidMetric)
next
  assume "ef rows = Inr NaN"
  with assms show "growDecisionTreeFrom B ef rows = Inl InvalidMetric"
    by (subst growDecisionTreeFrom.simps) simp
qed

theorem invalid_metric_iff_witness:
  "[[Str ''A'']] \<noteq> [] \<and>
   growDecisionTreeFrom example_builtins (\<lambda>rows. Inr NaN :: unit + jsnum) [[Str ''A'']]
     = Inl InvalidMetric"
  using invalid_metric_iff [of "[[Str ''A'']]" example_builtins "\<lambda>rows. Inr NaN :: unit + jsnum"]
  by simp

text \<open>
  The claim as stated fails for a score that is infinite: it is not a finite number, and
  the builder returns a leaf.
\<close>

theorem invalid_metric_iff_counterexample:
  "\<not> is_finite PInf \<and>
   growDecisionTreeFrom example_builtins (\<lambda>rows. Inr PInf :: unit + jsnum) [[Str ''A'']]
     = Inr (DecisionTree (- 1) Null None None (Some [(''A'', 1)]) (Summary ''p'' 1))"
  by (subst growDecisionTreeFrom.simps) (simp add: eval_defs is_finite_def example_builtins_def)

text \<open>
  Claim C9, amended. The builder applied to an empty dataset raises no error and returns
  the node of the constructor's defaults: no \<open>results\<close>, no branches, column \<open>-1\<close>, value
  \<open>null\<close>, and the empty summary, which records no sample count (and no impurity).
\<close>

theorem grow_empty_dataset:
  "growDecisionTreeFrom B ef [] = Inr (DecisionTree (- 1) Null None None None EmptySummary)
   \<and> sample_count EmptySummary = None"
  by (simp add: grow_empty default_tree_def sample_count_def)

theorem grow_empty_dataset_counterexample:
  "growDecisionTreeFrom example_builtins (GINI example_builtins :: unit metric) []
     = Inr default_tree \<and>
   sample_count (summary default_tree) \<noteq> Some 0"
  by (simp add: grow_empty) (simp add: default_tree_def sample_count_def)

text \<open>
  Claim C10. \<open>prune\<close> returns only when the root has its branches: on every tree whose
  root has no true branch, so on every leaf, it throws the \<open>TypeError\<close> of reading
  \<open>.results\<close> of the missing branch instead of returning the tree unchanged. The builder
  returns such a root for the empty dataset and whenever it returns a leaf.
\<close>

theorem prune_leaf_root_throws:
  "(trueBranch t = None \<longrightarrow> prune B ef minGain notify t = Inl TypeError) \<and>
   (growDecisionTreeFrom B ef' rows = Inr t' \<and> (rows = [] \<or> results t' \<noteq> None) \<longrightarrow>
      prune B ef minGain notify t' = Inl TypeError)"
  by (auto dest!: grow_leaf_no_children intro: prune_no_true_branch)

theorem prune_leaf_root_throws_witness:
  "trueBranch (leafA example_builtins) = None \<and>
   growDecisionTreeFrom example_builtins (GINI example_builtins :: unit metric) [[Str ''A'']]
     = Inr (leafA example_builtins) \<and>
   results (leafA example_builtins) \<noteq> None \<and>
   prune example_builtins (GINI example_builtins :: unit metric) (Fin 1) False
     (leafA example_builtins) = Inl TypeError"
proof -
  have a: "trueBranch (leafA example_builtins) = None" by (simp add: leafA_def)
  have g: "growDecisionTreeFrom example_builtins (GINI example_builtins :: unit metric)
             [[Str ''A'']] = Inr (leafA example_builtins)" by (rule grow_single)
  have r: "results (leafA example_builtins) \<noteq> None" by (simp add: leafA_def)
  from prune_leaf_root_throws [of "leafA example_builtins" example_builtins
      "GINI example_builtins :: unit metric" "Fin 1" False
      "GINI example_builtins :: unit metric" "[[Str ''A'']]" "leafA example_builtins"]
    a g r
  show ?thesis by simp
qed

end
